theory Spec2Isabelle
  imports Main "HOL-Library.Word"
begin

section \<open>CPU idle and run time accounting: kernel/sched/cpu_idleruntime.c\<close>

subsection \<open>Data\<close>

text \<open>
  The file keeps four per-CPU counters of type \<^verbatim>\<open>unsigned long long\<close>
  (\<^verbatim>\<open>idlestart\<close>, \<^verbatim>\<open>idlestop\<close>, \<^verbatim>\<open>idletime\<close>, \<^verbatim>\<open>runtime\<close>), one per-CPU raw spinlock,
  one per-CPU pointer to the CPU's directory under /proc/idleruntime and the pointer to
  that root directory. A per-CPU variable is a function of the CPU number; an
  \<^verbatim>\<open>unsigned long long\<close> is a 64-bit word, so \<open>+\<close> and \<open>-\<close> wrap modulo \<open>2 ^ 64\<close> as in C;
  a pointer to a \<^verbatim>\<open>struct proc_dir_entry\<close> is \<open>None\<close> for \<^verbatim>\<open>NULL\<close> and \<open>Some h\<close>
  for an entry \<open>h\<close>.
\<close>

type_synonym u64 = "64 word"
type_synonym cpu = nat
type_synonym proc_dir_entry = nat

record kstate =
  idlestart :: "cpu \<Rightarrow> u64"
  idlestop :: "cpu \<Rightarrow> u64"
  idletime :: "cpu \<Rightarrow> u64"
  runtime :: "cpu \<Rightarrow> u64"
  idleruntime_lock :: "cpu \<Rightarrow> bool"
  idleruntime_dir :: "cpu \<Rightarrow> proc_dir_entry option"
  root_idleruntime_dir :: "proc_dir_entry option"

text \<open>
  What the file reads from the rest of the kernel, at one call of one of its functions:
  \<^item> \<open>cpu_clock w c\<close>: the value \<^verbatim>\<open>cpu_clock(c)\<close> returns;
  \<^item> \<open>curr_is_idle w c\<close>: the value of \<^verbatim>\<open>is_idle_task(cpu_rq(c)->curr)\<close>;
  \<^item> \<open>nr_cpu_ids w\<close> and \<open>cpu_present_mask w\<close>: the bitmap \<^verbatim>\<open>for_each_present_cpu\<close> walks;
  \<^item> \<open>proc_mkdir w c parent\<close>: what \<^verbatim>\<open>proc_mkdir("cpu<c>", parent)\<close> returns;
  \<^item> \<open>config_hotplug_cpu w\<close>: whether \<^verbatim>\<open>CONFIG_HOTPLUG_CPU\<close> is set.
  Every function of the file reads the clock and the current task of a CPU at most once
  per call, so one such record per call loses nothing, also when time passes while
  \<^verbatim>\<open>idleruntime_show_all\<close> walks the CPUs.
\<close>

record world =
  cpu_clock :: "cpu \<Rightarrow> u64"
  curr_is_idle :: "cpu \<Rightarrow> bool"
  nr_cpu_ids :: nat
  cpu_present_mask :: "cpu \<Rightarrow> bool"
  proc_mkdir :: "cpu \<Rightarrow> proc_dir_entry \<Rightarrow> proc_dir_entry option"
  config_hotplug_cpu :: bool

subsection \<open>The per-CPU lock\<close>

text \<open>
  \<^verbatim>\<open>raw_spin_lock_irqsave\<close> returns once it holds the lock. In a run of one thread of
  control a lock that is already held is never released, so the call spins for ever:
  that is the value \<open>None\<close>.
\<close>

definition raw_spin_lock_irqsave :: "cpu \<Rightarrow> kstate \<Rightarrow> kstate option" where
  "raw_spin_lock_irqsave cpu s =
     (if idleruntime_lock s cpu then None
      else Some (s\<lparr>idleruntime_lock := (idleruntime_lock s)(cpu := True)\<rparr>))"

definition raw_spin_unlock_irqrestore :: "cpu \<Rightarrow> kstate \<Rightarrow> kstate" where
  "raw_spin_unlock_irqrestore cpu s = s\<lparr>idleruntime_lock := (idleruntime_lock s)(cpu := False)\<rparr>"

subsection \<open>Reading the counters\<close>

text \<open>
  \<^verbatim>\<open>idleruntime_get\<close> is three parts: it takes the CPU's lock, runs the statements of
  lines 44 to 52 and releases the lock. \<open>idleruntime_get_critical\<close> is the middle part,
  the statements between \<^verbatim>\<open>raw_spin_lock_irqsave\<close> and \<^verbatim>\<open>raw_spin_unlock_irqrestore\<close>:
  it starts from the state the lock call left and gives the state the unlock call
  receives, with the two values stored through \<^verbatim>\<open>cpuidletime\<close> and \<^verbatim>\<open>cpuruntime\<close>.
\<close>

definition idleruntime_get_critical :: "world \<Rightarrow> cpu \<Rightarrow> kstate \<Rightarrow> kstate \<times> u64 \<times> u64" where
  "idleruntime_get_critical w cpu s1 =
     (let now = cpu_clock w cpu;
          s2 = (if curr_is_idle w cpu
                then s1\<lparr>idletime := (idletime s1)(cpu := idletime s1 cpu + (now - idlestart s1 cpu))\<rparr>
                else s1\<lparr>runtime := (runtime s1)(cpu := runtime s1 cpu + (now - idlestop s1 cpu))\<rparr>);
          cpuidletime = idletime s2 cpu;
          cpuruntime = runtime s2 cpu
      in (s2, cpuidletime, cpuruntime))"

text \<open>
  The result of \<^verbatim>\<open>idleruntime_get\<close> is the state left behind and the two values stored
  through \<^verbatim>\<open>cpuidletime\<close> and \<^verbatim>\<open>cpuruntime\<close>.
\<close>

definition idleruntime_get :: "world \<Rightarrow> cpu \<Rightarrow> kstate \<Rightarrow> (kstate \<times> u64 \<times> u64) option" where
  "idleruntime_get w cpu s =
     (case raw_spin_lock_irqsave cpu s of
        None \<Rightarrow> None
      | Some s1 \<Rightarrow>
          (case idleruntime_get_critical w cpu s1 of
             (s2, cpuidletime, cpuruntime) \<Rightarrow>
               Some (raw_spin_unlock_irqrestore cpu s2, cpuidletime, cpuruntime)))"

text \<open>
  \<^verbatim>\<open>idleruntime_output\<close> prints its two arguments with \<^verbatim>\<open>"%llu %llu\n"\<close>; the model
  keeps the two numbers printed.
\<close>

definition idleruntime_output :: "u64 \<Rightarrow> u64 \<Rightarrow> u64 \<times> u64" where
  "idleruntime_output idletime_arg runtime_arg = (idletime_arg, runtime_arg)"

definition idleruntime_show :: "world \<Rightarrow> cpu \<Rightarrow> kstate \<Rightarrow> (kstate \<times> u64 \<times> u64) option" where
  "idleruntime_show w cpu s =
     (case idleruntime_get w cpu s of
        None \<Rightarrow> None
      | Some (s', cpuidletime, cpuruntime) \<Rightarrow> Some (s', idleruntime_output cpuidletime cpuruntime))"

text \<open>
  \<^verbatim>\<open>for_each_present_cpu\<close> visits the set bits of the present mask in increasing order.
\<close>

definition for_each_present_cpu :: "world \<Rightarrow> cpu list" where
  "for_each_present_cpu w = filter (cpu_present_mask w) [0 ..< nr_cpu_ids w]"

fun show_all_loop :: "world \<Rightarrow> cpu list \<Rightarrow> kstate \<Rightarrow> u64 \<Rightarrow> u64 \<Rightarrow> (kstate \<times> u64 \<times> u64) option" where
  "show_all_loop w [] s total_idletime total_runtime = Some (s, total_idletime, total_runtime)"
| "show_all_loop w (cpu # cpus) s total_idletime total_runtime =
     (case idleruntime_get w cpu s of
        None \<Rightarrow> None
      | Some (s', cpuidletime, cpuruntime) \<Rightarrow>
          show_all_loop w cpus s' (total_idletime + cpuidletime) (total_runtime + cpuruntime))"

definition idleruntime_show_all :: "world \<Rightarrow> kstate \<Rightarrow> (kstate \<times> u64 \<times> u64) option" where
  "idleruntime_show_all w s =
     (case show_all_loop w (for_each_present_cpu w) s 0 0 of
        None \<Rightarrow> None
      | Some (s', total_idletime, total_runtime) \<Rightarrow>
          Some (s', idleruntime_output total_idletime total_runtime))"

subsection \<open>Resetting the counters\<close>

text \<open>
  \<^verbatim>\<open>idleruntime_reset1\<close> has the same three parts; \<open>idleruntime_reset1_critical\<close> is the
  two assignments of lines 102 and 103, between the lock and the unlock call.
\<close>

definition idleruntime_reset1_critical :: "world \<Rightarrow> cpu \<Rightarrow> kstate \<Rightarrow> kstate" where
  "idleruntime_reset1_critical w cpu s1 =
     (let s2 = s1\<lparr>idletime := (idletime s1)(cpu := 0), runtime := (runtime s1)(cpu := 0)\<rparr>;
          now = cpu_clock w cpu
      in s2\<lparr>idlestart := (idlestart s2)(cpu := now), idlestop := (idlestop s2)(cpu := now)\<rparr>)"

definition idleruntime_reset1 :: "world \<Rightarrow> cpu \<Rightarrow> kstate \<Rightarrow> kstate option" where
  "idleruntime_reset1 w cpu s =
     (case raw_spin_lock_irqsave cpu s of
        None \<Rightarrow> None
      | Some s1 \<Rightarrow> Some (raw_spin_unlock_irqrestore cpu (idleruntime_reset1_critical w cpu s1)))"

text \<open>
  The write handler of a CPU's files: it resets the CPU and returns \<^verbatim>\<open>len\<close>. The
  parameter \<^verbatim>\<open>len\<close> is a \<^verbatim>\<open>size_t\<close> and the function returns an \<^verbatim>\<open>ssize_t\<close>, the signed
  type of the same width (32 or 64 bits, as the kernel is built): what the caller gets is
  \<^verbatim>\<open>len\<close> read as a two's complement number, negative from half the range on.
\<close>

definition idleruntime_reset :: "world \<Rightarrow> cpu \<Rightarrow> 'a::len word \<Rightarrow> kstate \<Rightarrow> (kstate \<times> int) option" where
  "idleruntime_reset w cpu len s =
     (case idleruntime_reset1 w cpu s of None \<Rightarrow> None | Some s' \<Rightarrow> Some (s', sint len))"

subsection \<open>CPUs coming and going\<close>

text \<open>
  \<^verbatim>\<open>proc_create_data\<close>, \<^verbatim>\<open>remove_proc_entry\<close> and \<^verbatim>\<open>proc_remove\<close> change the proc file
  system only, and the file ignores what they return: of the two functions below the
  state of this file keeps the pointer \<^verbatim>\<open>idleruntime_dir\<close>.
\<close>

definition setup_procfiles :: "world \<Rightarrow> cpu \<Rightarrow> kstate \<Rightarrow> kstate" where
  "setup_procfiles w cpu s =
     (let idleruntime_cpudir =
            (case root_idleruntime_dir s of
               None \<Rightarrow> None
             | Some root \<Rightarrow> proc_mkdir w cpu root)
      in s\<lparr>idleruntime_dir := (idleruntime_dir s)(cpu := idleruntime_cpudir)\<rparr>)"

definition unset_procfiles :: "cpu \<Rightarrow> kstate \<Rightarrow> kstate" where
  "unset_procfiles cpu s =
     (case idleruntime_dir s cpu of
        None \<Rightarrow> s
      | Some idleruntime_cpudir \<Rightarrow> s\<lparr>idleruntime_dir := (idleruntime_dir s)(cpu := None)\<rparr>)"

text \<open>
  The notifier actions and return codes are macros of \<^verbatim>\<open>include/linux/cpu.h\<close> and
  \<^verbatim>\<open>include/linux/notifier.h\<close>, with the values they have there. \<^verbatim>\<open>NOTIFY_OK\<close> is the
  code of a callback that has nothing to object; \<^verbatim>\<open>NOTIFY_BAD\<close>, which this file never
  returns, is the code of one that refuses the event.
\<close>

definition CPU_ONLINE :: nat where "CPU_ONLINE = 2"
definition CPU_DEAD :: nat where "CPU_DEAD = 7"
definition NOTIFY_OK :: int where "NOTIFY_OK = 1"
definition NOTIFY_BAD :: int where "NOTIFY_BAD = 32770"

definition idleruntime_cpu_callback :: "world \<Rightarrow> nat \<Rightarrow> cpu \<Rightarrow> kstate \<Rightarrow> kstate \<times> int" where
  "idleruntime_cpu_callback w action hcpu s =
     (let cpu = hcpu;
          s' = (if action = CPU_ONLINE then setup_procfiles w cpu s
                else if config_hotplug_cpu w \<and> action = CPU_DEAD then unset_procfiles cpu s
                else s)
      in (s', NOTIFY_OK))"

subsection \<open>Successive reads of one CPU\<close>

text \<open>
  A run of successive calls of \<^verbatim>\<open>idleruntime_get\<close> for one CPU with nothing else
  touching the state in between: the \<open>k\<close>-th call sees the \<open>k\<close>-th world of the list.
  The result is the final state and the pair each call returned, in order.
\<close>

fun successive_gets :: "world list \<Rightarrow> cpu \<Rightarrow> kstate \<Rightarrow> (kstate \<times> (u64 \<times> u64) list) option" where
  "successive_gets [] cpu s = Some (s, [])"
| "successive_gets (w # ws) cpu s =
     (case idleruntime_get w cpu s of
        None \<Rightarrow> None
      | Some (s1, cpuidletime, cpuruntime) \<Rightarrow>
          (case successive_gets ws cpu s1 of
             None \<Rightarrow> None
           | Some (s2, rs) \<Rightarrow> Some (s2, (cpuidletime, cpuruntime) # rs)))"

text \<open>
  The amounts such a run adds to each counter, as natural numbers: at a call that finds
  the CPU idle, the clock minus \<^verbatim>\<open>idlestart\<close>; at any other call, the clock minus
  \<^verbatim>\<open>idlestop\<close>; both modulo \<open>2 ^ 64\<close>.
\<close>

definition idle_deltas :: "world list \<Rightarrow> cpu \<Rightarrow> kstate \<Rightarrow> nat list" where
  "idle_deltas ws cpu s =
     map (\<lambda>w. unat (cpu_clock w cpu - idlestart s cpu)) (filter (\<lambda>w. curr_is_idle w cpu) ws)"

definition run_deltas :: "world list \<Rightarrow> cpu \<Rightarrow> kstate \<Rightarrow> nat list" where
  "run_deltas ws cpu s =
     map (\<lambda>w. unat (cpu_clock w cpu - idlestop s cpu)) (filter (\<lambda>w. \<not> curr_is_idle w cpu) ws)"

subsection \<open>Reaching a CPU's files\<close>

text \<open>The two errors the spec names.\<close>

datatype error = UnknownCoreError | DuplicateCoreError

text \<open>
  Modelled from the spec: the path lookup that leads a read of
  \<^verbatim>\<open>/proc/idleruntime/cpu<N>/data\<close> to \<^verbatim>\<open>idleruntime_show\<close>, and a write of
  \<^verbatim>\<open>/proc/idleruntime/cpu<N>/reset\<close> to \<^verbatim>\<open>idleruntime_reset\<close>, is code of the proc file
  system (\<^verbatim>\<open>fs/proc\<close>), not of \<^verbatim>\<open>kernel/sched/cpu_idleruntime.c\<close>. The spec's words:
  "look up the cell for id; fails with UnknownCoreError if absent (core not currently
  present); otherwise delegates to update_and_read", and for the reset "symmetric". A CPU
  counts as present when the file's own per-CPU pointer \<^verbatim>\<open>idleruntime_dir\<close> is set; the
  handlers the lookup delegates to are the file's own.
\<close>

definition read_core :: "world \<Rightarrow> cpu \<Rightarrow> kstate \<Rightarrow> (error + kstate \<times> u64 \<times> u64) option" where
  "read_core w core s =
     (case idleruntime_dir s core of
        None \<Rightarrow> Some (Inl UnknownCoreError)
      | Some _ \<Rightarrow> map_option Inr (idleruntime_show w core s))"

definition reset_core :: "world \<Rightarrow> cpu \<Rightarrow> 'a::len word \<Rightarrow> kstate \<Rightarrow> (error + kstate \<times> int) option" where
  "reset_core w core len s =
     (case idleruntime_dir s core of
        None \<Rightarrow> Some (Inl UnknownCoreError)
      | Some _ \<Rightarrow> map_option Inr (idleruntime_reset w core len s))"

subsection \<open>A worked run\<close>

text \<open>
  CPU 0 of a two-CPU machine, its marks at 0 and its counters empty, no lock held, the
  root directory and the directory of CPU 0 in place.
\<close>

definition boot_state :: kstate where
  "boot_state =
     \<lparr>idlestart = (\<lambda>_. 0), idlestop = (\<lambda>_. 0), idletime = (\<lambda>_. 0), runtime = (\<lambda>_. 0),
      idleruntime_lock = (\<lambda>_. False), idleruntime_dir = (\<lambda>_. None)(0 := Some 10),
      root_idleruntime_dir = Some 1\<rparr>"

definition world_at :: "u64 \<Rightarrow> bool \<Rightarrow> world" where
  "world_at now idle =
     \<lparr>cpu_clock = (\<lambda>_. now), curr_is_idle = (\<lambda>_. idle), nr_cpu_ids = 2,
      cpu_present_mask = (\<lambda>_. True), proc_mkdir = (\<lambda>c _. Some (10 + c)),
      config_hotplug_cpu = True\<rparr>"

text \<open>The same machine with every CPU's marks and counters at the given values.\<close>

definition counters_at :: "u64 \<Rightarrow> u64 \<Rightarrow> u64 \<Rightarrow> u64 \<Rightarrow> kstate" where
  "counters_at start stop idle run =
     boot_state\<lparr>idlestart := (\<lambda>_. start), idlestop := (\<lambda>_. stop),
                idletime := (\<lambda>_. idle), runtime := (\<lambda>_. run)\<rparr>"

text \<open>
  Three possible CPUs of which CPUs 0 and 2 are present, every clock at 100, CPU 0 idle
  and the others busy.
\<close>

definition mixed_world :: world where
  "mixed_world =
     (world_at 100 True)\<lparr>curr_is_idle := (\<lambda>c. c = 0), nr_cpu_ids := 3,
                           cpu_present_mask := (\<lambda>c. c \<noteq> 1)\<rparr>"

section \<open>Properties\<close>

subsection \<open>What a read does to the state\<close>

lemmas run_defs = idleruntime_get_def idleruntime_get_critical_def raw_spin_lock_irqsave_def
  raw_spin_unlock_irqrestore_def boot_state_def world_at_def counters_at_def

lemma idleruntime_get_locked: "idleruntime_lock s cpu \<Longrightarrow> idleruntime_get w cpu s = None"
  by (simp add: idleruntime_get_def raw_spin_lock_irqsave_def)

lemma idleruntime_get_idle:
  assumes "\<not> idleruntime_lock s cpu" and "curr_is_idle w cpu"
  shows "idleruntime_get w cpu s =
           Some (s\<lparr>idletime := (idletime s)(cpu := idletime s cpu + (cpu_clock w cpu - idlestart s cpu))\<rparr>,
                 idletime s cpu + (cpu_clock w cpu - idlestart s cpu), runtime s cpu)"
  using assms
  by (simp add: idleruntime_get_def idleruntime_get_critical_def raw_spin_lock_irqsave_def
      raw_spin_unlock_irqrestore_def Let_def fun_upd_idem)

lemma idleruntime_get_busy:
  assumes "\<not> idleruntime_lock s cpu" and "\<not> curr_is_idle w cpu"
  shows "idleruntime_get w cpu s =
           Some (s\<lparr>runtime := (runtime s)(cpu := runtime s cpu + (cpu_clock w cpu - idlestop s cpu))\<rparr>,
                 idletime s cpu, runtime s cpu + (cpu_clock w cpu - idlestop s cpu))"
  using assms
  by (simp add: idleruntime_get_def idleruntime_get_critical_def raw_spin_lock_irqsave_def
      raw_spin_unlock_irqrestore_def Let_def fun_upd_idem)

lemma idleruntime_get_values:
  assumes "\<not> idleruntime_lock s c"
  shows "map_option snd (idleruntime_get w c s) =
           Some (if curr_is_idle w c
                 then (idletime s c + (cpu_clock w c - idlestart s c), runtime s c)
                 else (idletime s c, runtime s c + (cpu_clock w c - idlestop s c)))"
  using assms by (simp add: idleruntime_get_idle idleruntime_get_busy)

lemma idleruntime_get_state:
  assumes "idleruntime_get w c s = Some (s1, i, r)"
  shows "\<not> idleruntime_lock s c"
    and "s1 = (if curr_is_idle w c
      then s\<lparr>idletime := (idletime s)(c := idletime s c + (cpu_clock w c - idlestart s c))\<rparr>
      else s\<lparr>runtime := (runtime s)(c := runtime s c + (cpu_clock w c - idlestop s c))\<rparr>)"
proof -
  show free: "\<not> idleruntime_lock s c"
    using assms idleruntime_get_locked [of s c w] by auto
  then show "s1 = (if curr_is_idle w c
      then s\<lparr>idletime := (idletime s)(c := idletime s c + (cpu_clock w c - idlestart s c))\<rparr>
      else s\<lparr>runtime := (runtime s)(c := runtime s c + (cpu_clock w c - idlestop s c))\<rparr>)"
    using assms by (auto simp add: idleruntime_get_idle idleruntime_get_busy)
qed

lemma idleruntime_get_lock_kept:
  assumes "idleruntime_get w c s = Some (s1, i, r)"
  shows "idleruntime_lock s1 = idleruntime_lock s"
  by (simp add: idleruntime_get_state(2) [OF assms])

lemma idleruntime_get_elsewhere:
  assumes "idleruntime_get w c s = Some (s1, i, r)" and "c' \<noteq> c"
  shows "map_option snd (idleruntime_get w c' s1) = map_option snd (idleruntime_get w c' s)"
proof (cases "idleruntime_lock s c'")
  case True
  then show ?thesis
    using idleruntime_get_lock_kept [OF assms(1)] by (simp add: idleruntime_get_locked)
next
  case False
  then have "\<not> idleruntime_lock s1 c'" using idleruntime_get_lock_kept [OF assms(1)] by simp
  with False assms(2) show ?thesis
    by (simp add: idleruntime_get_values) (simp add: idleruntime_get_state(2) [OF assms(1)])
qed

lemma idleruntime_show_eq_get: "idleruntime_show w c s = idleruntime_get w c s"
  by (simp add: idleruntime_show_def idleruntime_output_def split: option.splits)

lemma snd_the_result: "map_option snd x = Some v \<Longrightarrow> snd (the x) = v"
  by (cases x) auto

subsection \<open>The interval a read closes\<close>





subsection \<open>What a read leaves alone\<close>

text \<open>
  C10. A call of \<^verbatim>\<open>idleruntime_get\<close> writes one thing: the entry of the CPU in the counter
  of the state the CPU is in (\<^verbatim>\<open>idletime\<close> when idle, \<^verbatim>\<open>runtime\<close> otherwise). Neither
  \<^verbatim>\<open>idlestart\<close> nor \<^verbatim>\<open>idlestop\<close> is modified, the other counter is unchanged, and so is
  everything that belongs to the other CPUs.
\<close>

theorem idleruntime_get_frame:
  assumes "\<not> idleruntime_lock s cpu"
  shows "\<exists>s' i r. idleruntime_get w cpu s = Some (s', i, r) \<and>
           idlestart s' = idlestart s \<and> idlestop s' = idlestop s \<and>
           (if curr_is_idle w cpu
            then runtime s' = runtime s \<and>
                 s' = s\<lparr>idletime :=
                         (idletime s)(cpu := idletime s cpu + (cpu_clock w cpu - idlestart s cpu))\<rparr>
            else idletime s' = idletime s \<and>
                 s' = s\<lparr>runtime :=
                         (runtime s)(cpu := runtime s cpu + (cpu_clock w cpu - idlestop s cpu))\<rparr>)"
proof (cases "curr_is_idle w cpu")
  case True
  with assms show ?thesis by (simp add: idleruntime_get_idle)
next
  case False
  with assms show ?thesis by (simp add: idleruntime_get_busy)
qed

theorem idleruntime_get_frame_witness:
  "\<not> idleruntime_lock boot_state 0 \<and>
   (\<exists>s' i r. idleruntime_get (world_at 300 True) 0 boot_state = Some (s', i, r) \<and>
      idlestart s' 0 = 0 \<and> idlestop s' 0 = 0 \<and> idletime s' 0 = 300 \<and> runtime s' 0 = 0 \<and>
      idletime s' 1 = 0)"
  using idleruntime_get_frame [of boot_state 0 "world_at 300 True"]
  by (auto simp add: boot_state_def world_at_def)

subsection \<open>Two reads at the same instant\<close>

text \<open>
  C1, as the code has it. \<^verbatim>\<open>idleruntime_get\<close> adds the clock minus the mark and leaves
  both marks where they were: it does not move them to the clock value it sampled. Two
  successive calls at the same clock instant, with nothing in between, therefore add the
  same amount twice: the second pair of totals exceeds the first by the clock minus the
  mark in the counter of the state the CPU is in, the other total is equal, and the two
  pairs are equal exactly when the clock equals that mark.
\<close>

theorem successive_gets_same_instant:
  assumes "\<not> idleruntime_lock s cpu"
  shows "\<exists>s' i1 r1 i2 r2.
           successive_gets [w, w] cpu s = Some (s', [(i1, r1), (i2, r2)]) \<and>
           idlestart s' = idlestart s \<and> idlestop s' = idlestop s \<and>
           (if curr_is_idle w cpu
            then i2 = i1 + (cpu_clock w cpu - idlestart s cpu) \<and> r2 = r1 \<and>
                 ((i2, r2) = (i1, r1) \<longleftrightarrow> cpu_clock w cpu = idlestart s cpu)
            else r2 = r1 + (cpu_clock w cpu - idlestop s cpu) \<and> i2 = i1 \<and>
                 ((i2, r2) = (i1, r1) \<longleftrightarrow> cpu_clock w cpu = idlestop s cpu))"
proof (cases "curr_is_idle w cpu")
  case True
  with assms show ?thesis by (simp add: idleruntime_get_idle)
next
  case False
  with assms show ?thesis by (simp add: idleruntime_get_busy)
qed

theorem successive_gets_same_instant_witness:
  "\<not> idleruntime_lock boot_state 0 \<and>
   map_option snd (successive_gets [world_at 0 True, world_at 0 True] 0 boot_state) =
     Some [(0, 0), (0, 0)] \<and>
   map_option snd (successive_gets [world_at 7 False, world_at 7 False] 0 boot_state) =
     Some [(0, 7), (0, 14)]"
  using successive_gets_same_instant [of boot_state 0 "world_at 0 True"]
    successive_gets_same_instant [of boot_state 0 "world_at 7 False"]
  by (simp add: run_defs)

text \<open>
  The claim as written fails: CPU 0 idle since clock 0, two reads at clock 100. The
  first returns 100 idle units, the second 200.
\<close>

theorem successive_gets_same_instant_counterexample:
  "cpu_clock (world_at 100 True) 0 = 100 \<and>
   map_option snd (successive_gets [world_at 100 True, world_at 100 True] 0 boot_state) =
     Some [(100, 0), (200, 0)]"
  by (simp add: run_defs)

subsection \<open>Two reads of a CPU that stays in one state\<close>

text \<open>
  C2, as the code has it. For a CPU that is in the same state at two successive calls of
  \<^verbatim>\<open>idleruntime_get\<close>, with nothing in between, the increases of the two returned totals
  add up to the second clock value minus the mark of that state (\<^verbatim>\<open>idlestart\<close> when idle,
  \<^verbatim>\<open>idlestop\<close> otherwise), modulo \<open>2 ^ 64\<close>. That is the clock time elapsed between the two
  calls exactly when the first call was made at the clock value of the mark.
\<close>

theorem successive_gets_elapsed:
  assumes "\<not> idleruntime_lock s cpu" and "curr_is_idle w2 cpu = curr_is_idle w1 cpu"
  shows "\<exists>s' i1 r1 i2 r2.
           successive_gets [w1, w2] cpu s = Some (s', [(i1, r1), (i2, r2)]) \<and>
           (i2 - i1) + (r2 - r1) =
             cpu_clock w2 cpu - (if curr_is_idle w1 cpu then idlestart s cpu else idlestop s cpu) \<and>
           ((i2 - i1) + (r2 - r1) = cpu_clock w2 cpu - cpu_clock w1 cpu \<longleftrightarrow>
             cpu_clock w1 cpu = (if curr_is_idle w1 cpu then idlestart s cpu else idlestop s cpu))"
proof (cases "curr_is_idle w1 cpu")
  case True
  with assms show ?thesis by (simp add: idleruntime_get_idle)
next
  case False
  with assms show ?thesis by (simp add: idleruntime_get_busy)
qed

theorem successive_gets_elapsed_witness:
  "\<not> idleruntime_lock boot_state 0 \<and>
   curr_is_idle (world_at 150 True) 0 = curr_is_idle (world_at 100 True) 0 \<and>
   map_option snd (successive_gets [world_at 100 True, world_at 150 True] 0 boot_state) =
     Some [(100, 0), (250, 0)] \<and>
   (250 - 100) + (0 - 0) = (150 - 0 :: u64)"
  using successive_gets_elapsed [of boot_state 0 "world_at 150 True" "world_at 100 True"]
  by (simp add: run_defs)

text \<open>
  The claim as written fails: CPU 0 idle since clock 0, read at clock 100 and again at
  clock 150. The idle total grows by 150, the clock by 50.
\<close>

theorem successive_gets_elapsed_counterexample:
  "curr_is_idle (world_at 100 True) 0 \<and> curr_is_idle (world_at 150 True) 0 \<and>
   map_option snd (successive_gets [world_at 100 True, world_at 150 True] 0 boot_state) =
     Some [(100, 0), (250, 0)] \<and>
   (250 - 100) + (0 - 0) \<noteq> (150 - 100 :: u64)"
  by (simp add: run_defs)

subsection \<open>A clock value behind the mark\<close>

lemma unat_sub_wraps:
  fixes a b :: u64
  assumes "a < b"
  shows "unat (a - b) = 2 ^ 64 - (unat b - unat a)"
proof -
  have "unat a < unat b" using assms by (simp add: word_less_nat_alt)
  moreover have "unat b < 2 ^ 64" using unsigned_less [of b, where 'a = nat] by simp
  ultimately show ?thesis by (simp add: unat_sub_if_size word_size)
qed

text \<open>
  C3, as the code has it. When the sampled clock value is smaller than the mark of the
  state the CPU is in, \<^verbatim>\<open>idleruntime_get\<close> does not clamp: the unsigned subtraction wraps,
  and the amount added to the counter is \<open>2 ^ 64\<close> minus the distance from the clock to
  the mark, which is not zero.
\<close>

theorem idleruntime_get_clock_behind_mark:
  assumes "\<not> idleruntime_lock s cpu"
    and "cpu_clock w cpu < (if curr_is_idle w cpu then idlestart s cpu else idlestop s cpu)"
  shows "\<exists>d. map_option snd (idleruntime_get w cpu s) =
               Some (if curr_is_idle w cpu then (idletime s cpu + d, runtime s cpu)
                     else (idletime s cpu, runtime s cpu + d)) \<and>
             unat d =
               2 ^ 64 - (unat (if curr_is_idle w cpu then idlestart s cpu else idlestop s cpu)
                         - unat (cpu_clock w cpu)) \<and>
             d \<noteq> 0"
proof (cases "curr_is_idle w cpu")
  case True
  with assms have lt: "cpu_clock w cpu < idlestart s cpu" by simp
  then have "cpu_clock w cpu - idlestart s cpu \<noteq> 0" by auto
  with True assms(1) unat_sub_wraps [OF lt] show ?thesis
    by (simp add: idleruntime_get_idle)
next
  case False
  with assms have lt: "cpu_clock w cpu < idlestop s cpu" by simp
  then have "cpu_clock w cpu - idlestop s cpu \<noteq> 0" by auto
  with False assms(1) unat_sub_wraps [OF lt] show ?thesis
    by (simp add: idleruntime_get_busy)
qed

theorem idleruntime_get_clock_behind_mark_witness:
  "\<not> idleruntime_lock (counters_at 10 10 3 4) 0 \<and>
   cpu_clock (world_at 5 True) 0 < idlestart (counters_at 10 10 3 4) 0 \<and>
   map_option snd (idleruntime_get (world_at 5 True) 0 (counters_at 10 10 3 4)) =
     Some (18446744073709551614, 4)"
  using idleruntime_get_clock_behind_mark [of "counters_at 10 10 3 4" 0 "world_at 5 True"]
  by (simp add: run_defs)

text \<open>
  The claim as written fails: CPU 0 idle, \<^verbatim>\<open>idlestart\<close> at 10, empty counters, clock at 5.
  A clamp would leave the idle total at 0; the call returns \<open>2 ^ 64 - 5\<close>.
\<close>

theorem idleruntime_get_clock_behind_mark_counterexample:
  "cpu_clock (world_at 5 True) 0 < idlestart (counters_at 10 10 0 0) 0 \<and>
   map_option snd (idleruntime_get (world_at 5 True) 0 (counters_at 10 10 0 0)) =
     Some (18446744073709551611, 0)"
  by (simp add: run_defs)

subsection \<open>Reset\<close>






subsection \<open>Totals over a run of reads\<close>

lemma u64_add_le:
  fixes x d :: u64
  assumes "unat x + unat d < 2 ^ 64"
  shows "unat (x + d) = unat x + unat d" and "x \<le> x + d"
proof -
  show eq: "unat (x + d) = unat x + unat d"
    using assms by (simp add: unat_add_lem [THEN iffD1])
  then show "x \<le> x + d" by (simp add: word_le_nat_alt)
qed

lemma successive_gets_sorted_from:
  assumes "\<not> idleruntime_lock s cpu"
    and "unat (idletime s cpu) + sum_list (idle_deltas ws cpu s) < 2 ^ 64"
    and "unat (runtime s cpu) + sum_list (run_deltas ws cpu s) < 2 ^ 64"
  shows "\<exists>s' rs. successive_gets ws cpu s = Some (s', rs) \<and> length rs = length ws \<and>
           sorted (map fst rs) \<and> sorted (map snd rs) \<and>
           (\<forall>p\<in>set rs. idletime s cpu \<le> fst p \<and> runtime s cpu \<le> snd p)"
  using assms
proof (induction ws arbitrary: s)
  case Nil
  then show ?case by simp
next
  case (Cons w ws)
  show ?case
  proof (cases "curr_is_idle w cpu")
    case True
    define d where "d = cpu_clock w cpu - idlestart s cpu"
    define s1 where "s1 = s\<lparr>idletime := (idletime s)(cpu := idletime s cpu + d)\<rparr>"
    have get: "idleruntime_get w cpu s = Some (s1, idletime s cpu + d, runtime s cpu)"
      using Cons.prems(1) True by (simp add: idleruntime_get_idle s1_def d_def)
    have sum: "unat (idletime s cpu) + unat d + sum_list (idle_deltas ws cpu s) < 2 ^ 64"
      using Cons.prems(2) True by (simp add: idle_deltas_def d_def)
    then have nowrap: "unat (idletime s cpu) + unat d < 2 ^ 64" by simp
    have le: "idletime s cpu \<le> idletime s cpu + d" by (rule u64_add_le(2) [OF nowrap])
    have "unat (idletime s1 cpu) + sum_list (idle_deltas ws cpu s1) < 2 ^ 64"
      using sum u64_add_le(1) [OF nowrap] by (simp add: s1_def idle_deltas_def)
    moreover have "unat (runtime s1 cpu) + sum_list (run_deltas ws cpu s1) < 2 ^ 64"
      using Cons.prems(3) True by (simp add: s1_def run_deltas_def)
    moreover have "\<not> idleruntime_lock s1 cpu" using Cons.prems(1) by (simp add: s1_def)
    ultimately obtain s' rs where rest: "successive_gets ws cpu s1 = Some (s', rs)"
      "length rs = length ws" "sorted (map fst rs)" "sorted (map snd rs)"
      "\<forall>p\<in>set rs. idletime s1 cpu \<le> fst p \<and> runtime s1 cpu \<le> snd p"
      using Cons.IH [of s1] by blast
    have s1_vals: "idletime s1 cpu = idletime s cpu + d" "runtime s1 cpu = runtime s cpu"
      by (simp_all add: s1_def)
    have "successive_gets (w # ws) cpu s = Some (s', (idletime s cpu + d, runtime s cpu) # rs)"
      using get rest(1) by simp
    moreover have "\<forall>p\<in>set rs. idletime s cpu \<le> fst p"
      using rest(5) le s1_vals by (auto intro: order_trans)
    ultimately show ?thesis using rest s1_vals le by auto
  next
    case False
    define d where "d = cpu_clock w cpu - idlestop s cpu"
    define s1 where "s1 = s\<lparr>runtime := (runtime s)(cpu := runtime s cpu + d)\<rparr>"
    have get: "idleruntime_get w cpu s = Some (s1, idletime s cpu, runtime s cpu + d)"
      using Cons.prems(1) False by (simp add: idleruntime_get_busy s1_def d_def)
    have sum: "unat (runtime s cpu) + unat d + sum_list (run_deltas ws cpu s) < 2 ^ 64"
      using Cons.prems(3) False by (simp add: run_deltas_def d_def)
    then have nowrap: "unat (runtime s cpu) + unat d < 2 ^ 64" by simp
    have le: "runtime s cpu \<le> runtime s cpu + d" by (rule u64_add_le(2) [OF nowrap])
    have "unat (runtime s1 cpu) + sum_list (run_deltas ws cpu s1) < 2 ^ 64"
      using sum u64_add_le(1) [OF nowrap] by (simp add: s1_def run_deltas_def)
    moreover have "unat (idletime s1 cpu) + sum_list (idle_deltas ws cpu s1) < 2 ^ 64"
      using Cons.prems(2) False by (simp add: s1_def idle_deltas_def)
    moreover have "\<not> idleruntime_lock s1 cpu" using Cons.prems(1) by (simp add: s1_def)
    ultimately obtain s' rs where rest: "successive_gets ws cpu s1 = Some (s', rs)"
      "length rs = length ws" "sorted (map fst rs)" "sorted (map snd rs)"
      "\<forall>p\<in>set rs. idletime s1 cpu \<le> fst p \<and> runtime s1 cpu \<le> snd p"
      using Cons.IH [of s1] by blast
    have s1_vals: "runtime s1 cpu = runtime s cpu + d" "idletime s1 cpu = idletime s cpu"
      by (simp_all add: s1_def)
    have "successive_gets (w # ws) cpu s = Some (s', (idletime s cpu, runtime s cpu + d) # rs)"
      using get rest(1) by simp
    moreover have "\<forall>p\<in>set rs. runtime s cpu \<le> snd p"
      using rest(5) le s1_vals by (auto intro: order_trans)
    ultimately show ?thesis using rest s1_vals le by auto
  qed
qed

text \<open>
  C6, as the code has it. The counters are 64-bit and every read adds to one of them
  modulo \<open>2 ^ 64\<close>. For one CPU, with no reset and nothing else touching the state, every
  run of successive calls of \<^verbatim>\<open>idleruntime_get\<close> returns idle totals that never decrease
  and run totals that never decrease, provided neither counter wraps: what the run adds
  to each counter, on top of what the counter holds, stays below \<open>2 ^ 64\<close>. Every call of
  the run returns.
\<close>

theorem successive_gets_nondecreasing:
  assumes "\<not> idleruntime_lock s cpu"
    and "unat (idletime s cpu) + sum_list (idle_deltas ws cpu s) < 2 ^ 64"
    and "unat (runtime s cpu) + sum_list (run_deltas ws cpu s) < 2 ^ 64"
  shows "\<exists>s' rs. successive_gets ws cpu s = Some (s', rs) \<and> length rs = length ws \<and>
           sorted (map fst rs) \<and> sorted (map snd rs)"
  using successive_gets_sorted_from [OF assms] by blast

theorem successive_gets_nondecreasing_witness:
  "\<not> idleruntime_lock boot_state 0 \<and>
   unat (idletime boot_state 0) +
     sum_list (idle_deltas [world_at 100 True, world_at 300 False, world_at 350 False] 0 boot_state)
       < 2 ^ 64 \<and>
   unat (runtime boot_state 0) +
     sum_list (run_deltas [world_at 100 True, world_at 300 False, world_at 350 False] 0 boot_state)
       < 2 ^ 64 \<and>
   map_option snd
     (successive_gets [world_at 100 True, world_at 300 False, world_at 350 False] 0 boot_state) =
     Some [(100, 0), (100, 300), (100, 650)]"
  using successive_gets_nondecreasing
    [of boot_state 0 "[world_at 100 True, world_at 300 False, world_at 350 False]"]
  by (simp add: run_defs idle_deltas_def run_deltas_def)

text \<open>
  The claim as written fails where a counter wraps: CPU 0 idle since clock 0 with
  \<^verbatim>\<open>idletime\<close> at \<open>2 ^ 64 - 256\<close>, read at clock 128 and again at clock 256. The clock does
  not go back, there is no reset, and the second idle total is smaller than the first.
\<close>

theorem successive_gets_nondecreasing_counterexample:
  "cpu_clock (world_at 128 True) 0 \<le> cpu_clock (world_at 256 True) 0 \<and>
   map_option snd (successive_gets [world_at 128 True, world_at 256 True] 0
     (counters_at 0 0 18446744073709551360 0)) = Some [(18446744073709551488, 0), (128, 0)] \<and>
   (128 :: u64) < 18446744073709551488"
  by (simp add: run_defs)

subsection \<open>The totals over all present CPUs\<close>

lemma show_all_loop_sums:
  assumes "distinct cpus" and "\<forall>c\<in>set cpus. \<not> idleruntime_lock s c"
  shows "map_option snd (show_all_loop w cpus s ti tr) =
           Some (ti + sum_list (map (\<lambda>c. fst (snd (the (idleruntime_get w c s)))) cpus),
                 tr + sum_list (map (\<lambda>c. snd (snd (the (idleruntime_get w c s)))) cpus))"
  using assms
proof (induction cpus arbitrary: s ti tr)
  case Nil
  then show ?case by simp
next
  case (Cons c cpus)
  from Cons.prems have free: "\<not> idleruntime_lock s c" by simp
  then obtain s1 i r where get: "idleruntime_get w c s = Some (s1, i, r)"
    using idleruntime_get_values [OF free, of w] by (cases "idleruntime_get w c s") auto
  have others: "\<forall>c'\<in>set cpus. c' \<noteq> c" using Cons.prems(1) by auto
  have same: "\<forall>c'\<in>set cpus. idleruntime_get w c' s1 \<noteq> None \<and>
      snd (the (idleruntime_get w c' s1)) = snd (the (idleruntime_get w c' s))"
  proof
    fix c' assume c': "c' \<in> set cpus"
    then have ne: "c' \<noteq> c" using others by simp
    have "\<not> idleruntime_lock s1 c'"
      using idleruntime_get_lock_kept [OF get] Cons.prems(2) c' by simp
    then have "idleruntime_get w c' s1 \<noteq> None"
      using idleruntime_get_values [of s1 c' w] by auto
    moreover have "idleruntime_get w c' s \<noteq> None"
      using idleruntime_get_values [of s c' w] Cons.prems(2) c' by auto
    ultimately show "idleruntime_get w c' s1 \<noteq> None \<and>
      snd (the (idleruntime_get w c' s1)) = snd (the (idleruntime_get w c' s))"
      using idleruntime_get_elsewhere [OF get ne] by (auto simp add: option.map_sel)
  qed
  have "\<forall>c'\<in>set cpus. \<not> idleruntime_lock s1 c'"
    using idleruntime_get_lock_kept [OF get] Cons.prems(2) by auto
  with Cons.IH [of s1 "ti + i" "tr + r"] Cons.prems(1)
  have "map_option snd (show_all_loop w cpus s1 (ti + i) (tr + r)) =
           Some (ti + i + sum_list (map (\<lambda>c. fst (snd (the (idleruntime_get w c s1)))) cpus),
                 tr + r + sum_list (map (\<lambda>c. snd (snd (the (idleruntime_get w c s1)))) cpus))"
    by simp
  moreover have "map (\<lambda>c. fst (snd (the (idleruntime_get w c s1)))) cpus =
      map (\<lambda>c. fst (snd (the (idleruntime_get w c s)))) cpus"
    using same by (intro map_cong) auto
  moreover have "map (\<lambda>c. snd (snd (the (idleruntime_get w c s1)))) cpus =
      map (\<lambda>c. snd (snd (the (idleruntime_get w c s)))) cpus"
    using same by (intro map_cong) auto
  ultimately show ?case using get by (simp add: add.assoc)
qed

lemma read_core_lookup:
  "read_core w c s =
     (if idleruntime_dir s c = None then Some (Inl UnknownCoreError)
      else map_option Inr (idleruntime_show w c s))"
  by (simp add: read_core_def split: option.splits)

text \<open>
  C7, as the code has it. Take a state in which the lock of no present CPU is held, and
  let neither the clocks nor the current tasks nor the present mask change. Read in that
  state, \<^verbatim>\<open>idleruntime_show_all\<close> prints the sums (of 64-bit values, so modulo \<open>2 ^ 64\<close>),
  over the CPUs of the present mask, of the two numbers \<^verbatim>\<open>idleruntime_show\<close> prints for
  each of these CPUs when it is read in that same state; each of these reads returns. For
  a present CPU that has its directory, these two numbers are what \<open>read_core\<close> returns
  in that state. For a present CPU without directory \<open>read_core\<close> fails with
  \<open>UnknownCoreError\<close>, and \<^verbatim>\<open>idleruntime_show_all\<close> counts the CPU all the same. The
  equality is one between reads of the same state: reads made one after the other are
  not covered, since every read adds the open interval of its CPU again.
\<close>

theorem idleruntime_show_all_is_sum:
  assumes "\<forall>c\<in>set (for_each_present_cpu w). \<not> idleruntime_lock s c"
  shows "(\<forall>c\<in>set (for_each_present_cpu w).
            idleruntime_show w c s \<noteq> None \<and>
            read_core w c s =
              (if idleruntime_dir s c = None then Some (Inl UnknownCoreError)
               else map_option Inr (idleruntime_show w c s))) \<and>
         map_option snd (idleruntime_show_all w s) =
           Some (sum_list (map (\<lambda>c. fst (snd (the (idleruntime_show w c s))))
                            (for_each_present_cpu w)),
                 sum_list (map (\<lambda>c. snd (snd (the (idleruntime_show w c s))))
                            (for_each_present_cpu w)))"
proof
  show "\<forall>c\<in>set (for_each_present_cpu w).
          idleruntime_show w c s \<noteq> None \<and>
          read_core w c s =
            (if idleruntime_dir s c = None then Some (Inl UnknownCoreError)
             else map_option Inr (idleruntime_show w c s))"
  proof
    fix c assume "c \<in> set (for_each_present_cpu w)"
    with assms have "\<not> idleruntime_lock s c" by simp
    then have "idleruntime_show w c s \<noteq> None"
      using idleruntime_get_values [of s c w] by (auto simp add: idleruntime_show_eq_get)
    then show "idleruntime_show w c s \<noteq> None \<and>
          read_core w c s =
            (if idleruntime_dir s c = None then Some (Inl UnknownCoreError)
             else map_option Inr (idleruntime_show w c s))"
      using read_core_lookup [of w c s] by simp
  qed
next
  have "distinct (for_each_present_cpu w)" by (simp add: for_each_present_cpu_def)
  from show_all_loop_sums [where w = w and ti = 0 and tr = 0, OF this assms]
  show "map_option snd (idleruntime_show_all w s) =
           Some (sum_list (map (\<lambda>c. fst (snd (the (idleruntime_show w c s))))
                            (for_each_present_cpu w)),
                 sum_list (map (\<lambda>c. snd (snd (the (idleruntime_show w c s))))
                            (for_each_present_cpu w)))"
    by (auto simp add: idleruntime_show_all_def idleruntime_output_def idleruntime_show_eq_get
        split: option.splits prod.splits)
qed

lemma mixed_world_present: "for_each_present_cpu mixed_world = [0, 2]"
  by (simp add: for_each_present_cpu_def mixed_world_def world_at_def numeral_3_eq_3 upt_rec)

theorem idleruntime_show_all_is_sum_witness:
  "for_each_present_cpu mixed_world = [0, 2] \<and>
   \<not> idleruntime_lock (counters_at 0 0 5 7) 0 \<and> \<not> idleruntime_lock (counters_at 0 0 5 7) 2 \<and>
   map_option snd (idleruntime_show mixed_world 0 (counters_at 0 0 5 7)) = Some (105, 7) \<and>
   map_option snd (idleruntime_show mixed_world 2 (counters_at 0 0 5 7)) = Some (5, 107) \<and>
   map_option (map_sum (\<lambda>e. e) snd) (read_core mixed_world 0 (counters_at 0 0 5 7)) =
     Some (Inr (105, 7)) \<and>
   read_core mixed_world 2 (counters_at 0 0 5 7) = Some (Inl UnknownCoreError) \<and>
   map_option snd (idleruntime_show_all mixed_world (counters_at 0 0 5 7)) = Some (110, 114)"
proof -
  let ?s = "counters_at 0 0 5 7"
  have free: "\<not> idleruntime_lock ?s 0" "\<not> idleruntime_lock ?s 2"
    by (simp_all add: counters_at_def boot_state_def)
  then have all_free: "\<forall>c\<in>set (for_each_present_cpu mixed_world). \<not> idleruntime_lock ?s c"
    by (simp add: mixed_world_present)
  have dirs: "idleruntime_dir ?s 0 \<noteq> None" "idleruntime_dir ?s 2 = None"
    by (simp_all add: counters_at_def boot_state_def)
  have r0: "map_option snd (idleruntime_show mixed_world 0 ?s) = Some (105, 7)"
    by (simp add: idleruntime_show_def idleruntime_output_def mixed_world_def run_defs)
  have r2: "map_option snd (idleruntime_show mixed_world 2 ?s) = Some (5, 107)"
    by (simp add: idleruntime_show_def idleruntime_output_def mixed_world_def run_defs)
  note all = idleruntime_show_all_is_sum [OF all_free]
  have c0: "read_core mixed_world 0 ?s = map_option Inr (idleruntime_show mixed_world 0 ?s)"
    using all dirs(1) by (simp add: mixed_world_present)
  have c2: "read_core mixed_world 2 ?s = Some (Inl UnknownCoreError)"
    using all dirs(2) by (simp add: mixed_world_present)
  have core0: "map_option (map_sum (\<lambda>e. e) snd) (read_core mixed_world 0 ?s) =
     Some (Inr (105, 7))"
    using r0 by (auto simp add: c0)
  have total: "map_option snd (idleruntime_show_all mixed_world ?s) = Some (110, 114)"
    using all by (simp add: mixed_world_present snd_the_result [OF r0] snd_the_result [OF r2])
  from mixed_world_present free r0 r2 core0 c2 total show ?thesis by simp
qed

text \<open>
  The claim as written fails twice in that state. Read one after the other at the same
  clock value, after \<^verbatim>\<open>idleruntime_show_all\<close> has printed (110, 114), CPU 0 gives
  (205, 7) and CPU 2 gives (5, 207): the sum is (210, 214). And CPU 2, which is present
  and counted, has no directory: \<open>read_core\<close> fails for it.
\<close>

theorem idleruntime_show_all_is_sum_counterexample:
  "map_option snd (idleruntime_show_all mixed_world (counters_at 0 0 5 7)) = Some (110, 114) \<and>
   map_option snd (idleruntime_show mixed_world 0
     (fst (the (idleruntime_show_all mixed_world (counters_at 0 0 5 7))))) = Some (205, 7) \<and>
   map_option snd (idleruntime_show mixed_world 2
     (fst (the (idleruntime_show mixed_world 0
       (fst (the (idleruntime_show_all mixed_world (counters_at 0 0 5 7)))))))) = Some (5, 207) \<and>
   (205 + 5 :: u64) \<noteq> 110 \<and> (7 + 207 :: u64) \<noteq> 114 \<and>
   cpu_present_mask mixed_world 2 \<and>
   read_core mixed_world 2 (counters_at 0 0 5 7) = Some (Inl UnknownCoreError)"
  by (simp add: idleruntime_show_all_def idleruntime_show_def idleruntime_output_def
      for_each_present_cpu_def numeral_3_eq_3 upt_rec read_core_def mixed_world_def run_defs)

subsection \<open>A CPU that leaves and comes back\<close>

lemma callback_online:
  "idleruntime_cpu_callback w CPU_ONLINE core s = (setup_procfiles w core s, NOTIFY_OK)"
  by (simp add: idleruntime_cpu_callback_def)

lemma callback_dead:
  "config_hotplug_cpu w \<Longrightarrow>
   idleruntime_cpu_callback w CPU_DEAD core s = (unset_procfiles core s, NOTIFY_OK)"
  by (simp add: idleruntime_cpu_callback_def CPU_DEAD_def CPU_ONLINE_def)

lemma unset_procfiles_dir: "idleruntime_dir (unset_procfiles core s) core = None"
  by (simp add: unset_procfiles_def split: option.splits)

lemma unset_procfiles_counters:
  "idlestart (unset_procfiles core s) = idlestart s"
  "idlestop (unset_procfiles core s) = idlestop s"
  "idletime (unset_procfiles core s) = idletime s"
  "runtime (unset_procfiles core s) = runtime s"
  "idleruntime_lock (unset_procfiles core s) = idleruntime_lock s"
  "root_idleruntime_dir (unset_procfiles core s) = root_idleruntime_dir s"
  by (simp_all add: unset_procfiles_def split: option.splits)

lemma setup_procfiles_counters:
  "idlestart (setup_procfiles w core s) = idlestart s"
  "idlestop (setup_procfiles w core s) = idlestop s"
  "idletime (setup_procfiles w core s) = idletime s"
  "runtime (setup_procfiles w core s) = runtime s"
  "idleruntime_lock (setup_procfiles w core s) = idleruntime_lock s"
  "root_idleruntime_dir (setup_procfiles w core s) = root_idleruntime_dir s"
  by (simp_all add: setup_procfiles_def Let_def)

lemma setup_procfiles_dir:
  "idleruntime_dir (setup_procfiles w core s) =
     (idleruntime_dir s)(core := (case root_idleruntime_dir s of None \<Rightarrow> None
                                  | Some root \<Rightarrow> proc_mkdir w core root))"
  by (simp add: setup_procfiles_def Let_def)

text \<open>
  C8, as the code has it. For a CPU whose \<^verbatim>\<open>idleruntime_dir\<close> is not set, \<open>read_core\<close> and
  \<open>reset_core\<close> fail with \<open>UnknownCoreError\<close> and return no data; that is the case after
  the \<^verbatim>\<open>CPU_DEAD\<close> notification of a kernel built with \<^verbatim>\<open>CONFIG_HOTPLUG_CPU\<close>. After a
  following \<^verbatim>\<open>CPU_ONLINE\<close> notification whose \<^verbatim>\<open>proc_mkdir\<close> succeeds, \<open>read_core\<close>
  succeeds. Neither notification touches the CPU's counters or marks: they are not set to
  zero and to the clock, so the read reports the totals the CPU had before it left, plus
  the interval from its old mark to the clock.
\<close>

theorem core_leave_then_join:
  assumes "config_hotplug_cpu w1"
    and "root_idleruntime_dir s = Some root" and "proc_mkdir w2 core root = Some h"
    and "\<not> idleruntime_lock s core"
  shows "(idleruntime_dir s0 core = None \<longrightarrow>
            read_core w core s0 = Some (Inl UnknownCoreError) \<and>
            reset_core w core len s0 = Some (Inl UnknownCoreError)) \<and>
         (let s1 = fst (idleruntime_cpu_callback w1 CPU_DEAD core s);
              s2 = fst (idleruntime_cpu_callback w2 CPU_ONLINE core s1)
          in read_core w core s1 = Some (Inl UnknownCoreError) \<and>
             reset_core w core len s1 = Some (Inl UnknownCoreError) \<and>
             idletime s2 = idletime s \<and> runtime s2 = runtime s \<and>
             idlestart s2 = idlestart s \<and> idlestop s2 = idlestop s \<and>
             map_option (map_sum (\<lambda>e. e) snd) (read_core w3 core s2) =
               Some (Inr (if curr_is_idle w3 core
                          then (idletime s core + (cpu_clock w3 core - idlestart s core),
                                runtime s core)
                          else (idletime s core,
                                runtime s core + (cpu_clock w3 core - idlestop s core)))))"
proof -
  define s1 where "s1 = unset_procfiles core s"
  define s2 where "s2 = setup_procfiles w2 core s1"
  have dir: "idleruntime_dir s2 core = Some h"
    using assms(2,3) by (simp add: s2_def s1_def setup_procfiles_dir unset_procfiles_counters)
  have free: "\<not> idleruntime_lock s2 core"
    using assms(4) by (simp add: s2_def s1_def setup_procfiles_counters unset_procfiles_counters)
  have vals: "idletime s2 = idletime s" "runtime s2 = runtime s"
    "idlestart s2 = idlestart s" "idlestop s2 = idlestop s"
    by (simp_all add: s2_def s1_def setup_procfiles_counters unset_procfiles_counters)
  have "map_option snd (idleruntime_get w3 core s2) =
      Some (if curr_is_idle w3 core
            then (idletime s core + (cpu_clock w3 core - idlestart s core), runtime s core)
            else (idletime s core, runtime s core + (cpu_clock w3 core - idlestop s core)))"
    using idleruntime_get_values [OF free, of w3] by (simp only: vals)
  then have read: "map_option (map_sum (\<lambda>e. e) snd) (read_core w3 core s2) =
      Some (Inr (if curr_is_idle w3 core
            then (idletime s core + (cpu_clock w3 core - idlestart s core), runtime s core)
            else (idletime s core, runtime s core + (cpu_clock w3 core - idlestop s core))))"
    using dir by (auto simp add: read_core_def idleruntime_show_eq_get)
  have gone: "read_core w core s1 = Some (Inl UnknownCoreError)"
    "reset_core w core len s1 = Some (Inl UnknownCoreError)"
    by (simp_all add: read_core_def reset_core_def s1_def unset_procfiles_dir)
  have absent: "idleruntime_dir s0 core = None \<longrightarrow>
            read_core w core s0 = Some (Inl UnknownCoreError) \<and>
            reset_core w core len s0 = Some (Inl UnknownCoreError)"
    by (simp add: read_core_def reset_core_def)
  show ?thesis
    using absent gone read vals assms(1)
    by (simp add: callback_online callback_dead s1_def [symmetric] s2_def [symmetric])
qed

theorem core_leave_then_join_witness:
  "config_hotplug_cpu (world_at 1000 True) \<and>
   root_idleruntime_dir (counters_at 0 0 500 700) = Some 1 \<and>
   proc_mkdir (world_at 1000 True) 0 1 = Some 10 \<and>
   \<not> idleruntime_lock (counters_at 0 0 500 700) 0 \<and>
   idleruntime_dir ((counters_at 0 0 500 700)\<lparr>idleruntime_dir := (\<lambda>_. None)\<rparr>) 0 = None \<and>
   read_core (world_at 1000 True) 0 ((counters_at 0 0 500 700)\<lparr>idleruntime_dir := (\<lambda>_. None)\<rparr>) =
     Some (Inl UnknownCoreError) \<and>
   read_core (world_at 1000 True) 0
     (fst (idleruntime_cpu_callback (world_at 1000 True) CPU_DEAD 0 (counters_at 0 0 500 700))) =
     Some (Inl UnknownCoreError) \<and>
   map_option (map_sum (\<lambda>e. e) snd) (read_core (world_at 1000 False) 0
     (fst (idleruntime_cpu_callback (world_at 1000 True) CPU_ONLINE 0
       (fst (idleruntime_cpu_callback (world_at 1000 True) CPU_DEAD 0 (counters_at 0 0 500 700)))))) =
     Some (Inr (500, 1700))"
  using core_leave_then_join [where ?w1.0 = "world_at 1000 True" and s = "counters_at 0 0 500 700"
      and root = 1 and ?w2.0 = "world_at 1000 True" and core = 0 and h = 10
      and ?s0.0 = "(counters_at 0 0 500 700)\<lparr>idleruntime_dir := (\<lambda>_. None)\<rparr>"
      and w = "world_at 1000 True" and len = "1 :: 64 word" and ?w3.0 = "world_at 1000 False"]
  by (simp add: run_defs Let_def)

text \<open>
  The claim as written fails: CPU 0 with 500 idle units and 700 run units, marks at 0,
  leaves and comes back at clock 1000 and is read at once, idle. A fresh cell would
  report (0, 0); the read reports 1500 idle units and 700 run units.
\<close>

theorem core_leave_then_join_counterexample:
  "cpu_clock (world_at 1000 True) 0 = 1000 \<and>
   map_option (map_sum (\<lambda>e. e) snd) (read_core (world_at 1000 True) 0
     (fst (idleruntime_cpu_callback (world_at 1000 True) CPU_ONLINE 0
       (fst (idleruntime_cpu_callback (world_at 1000 True) CPU_DEAD 0 (counters_at 0 0 500 700)))))) =
     Some (Inr (1500, 700))"
  by (simp add: run_defs read_core_def idleruntime_show_def idleruntime_output_def
      idleruntime_cpu_callback_def setup_procfiles_def unset_procfiles_def CPU_ONLINE_def CPU_DEAD_def)

subsection \<open>A second CPU_ONLINE for the same CPU\<close>

text \<open>
  C9, as the code has it. \<^verbatim>\<open>idleruntime_cpu_callback\<close> does not look whether the CPU
  already has its directory: a second \<^verbatim>\<open>CPU_ONLINE\<close> notification for the same CPU, with no
  \<^verbatim>\<open>CPU_DEAD\<close> in between, returns \<^verbatim>\<open>NOTIFY_OK\<close> like the first and runs
  \<^verbatim>\<open>setup_procfiles\<close> again, which stores whatever \<^verbatim>\<open>proc_mkdir\<close> returns this time in
  \<^verbatim>\<open>idleruntime_dir\<close>. The four fields of every CPU (both counters, both marks) are left
  untouched by it.
\<close>

theorem second_cpu_online_accepted:
  "(let first = idleruntime_cpu_callback w1 CPU_ONLINE core s;
        second = idleruntime_cpu_callback w2 CPU_ONLINE core (fst first)
    in snd first = NOTIFY_OK \<and> snd second = NOTIFY_OK \<and> NOTIFY_OK \<noteq> NOTIFY_BAD \<and>
       idlestart (fst second) = idlestart (fst first) \<and>
       idlestop (fst second) = idlestop (fst first) \<and>
       idletime (fst second) = idletime (fst first) \<and>
       runtime (fst second) = runtime (fst first) \<and>
       idleruntime_dir (fst second) core =
         (case root_idleruntime_dir s of None \<Rightarrow> None | Some root \<Rightarrow> proc_mkdir w2 core root))"
  by (simp add: callback_online setup_procfiles_counters setup_procfiles_dir
      NOTIFY_OK_def NOTIFY_BAD_def Let_def)

text \<open>
  The claim as written fails: CPU 1 comes online twice. After the first notification it
  has its directory; the second notification returns \<^verbatim>\<open>NOTIFY_OK\<close>, not an error.
\<close>

theorem second_cpu_online_accepted_counterexample:
  "idleruntime_dir (fst (idleruntime_cpu_callback (world_at 0 True) CPU_ONLINE 1 boot_state)) 1 =
     Some 11 \<and>
   snd (idleruntime_cpu_callback (world_at 0 True) CPU_ONLINE 1
          (fst (idleruntime_cpu_callback (world_at 0 True) CPU_ONLINE 1 boot_state))) = NOTIFY_OK \<and>
   NOTIFY_OK \<noteq> NOTIFY_BAD"
  by (simp add: idleruntime_cpu_callback_def setup_procfiles_def boot_state_def world_at_def
      NOTIFY_OK_def NOTIFY_BAD_def)

end
